theory Spec2Isabelle
  imports Complex_Main
begin

section \<open>The cosine-bell convergence analysis (\<open>polaris/ocean/tasks/cosine_bell/analysis.py\<close>)\<close>

text \<open>
  The module has one class, \<open>Analysis\<close>, with two methods that compute:
  \<open>rmse\<close> (the error of one resolution against the analytic cosine bell) and
  \<open>run\<close> (the log-log fit over all resolutions, the plot and the threshold check).

  Numbers. Python's \<open>float\<close> and numpy's \<open>float64\<close> are modelled by \<^typ>\<open>real\<close>:
  the arithmetic of the model is exact, so rounding is not described. The literals
  of the source are kept as they are written (\<open>3.14159265\<close>, \<open>3.1415926\<close>, and
  \<open>np.pi\<close> as \<^term>\<open>pi\<close>). Where IEEE arithmetic would leave the reals
  (a division by zero, the logarithm of a number that is not positive, the mean of
  an empty array) the model stops with the outcome \<open>NonFinite\<close>: numpy goes on there
  with \<open>inf\<close> or \<open>nan\<close> and a warning, and the model says nothing about what follows.
\<close>

subsection \<open>Exceptions\<close>

datatype error =
    UnboundLocalError string
      \<comment> \<open>a local variable is read before any assignment; the argument is its name\<close>
  | FloatValueError string
      \<comment> \<open>\<open>ValueError\<close> of \<open>float(s)\<close>: the argument is the string \<open>s\<close>\<close>
  | FileNotFoundError string
      \<comment> \<open>\<open>xr.open_dataset\<close> on a file that is not there\<close>
  | IndexError
      \<comment> \<open>an index out of bounds, or a boolean mask of the wrong length\<close>
  | BroadcastError
      \<comment> \<open>\<open>ValueError\<close> of numpy: operands could not be broadcast together\<close>
  | EmptyVectorError
      \<comment> \<open>\<open>TypeError\<close> of \<open>np.polyfit\<close>: expected non-empty vector for x\<close>
  | FitLengthError
      \<comment> \<open>\<open>TypeError\<close> of \<open>np.polyfit\<close>: expected x and y to have same length\<close>
  | OrderBelowTolerance real real
      \<comment> \<open>the \<open>ValueError\<close> raised by \<open>run\<close>: the order and the minimum tolerance\<close>
  | NonFinite
      \<comment> \<open>not an exception: IEEE arithmetic yields \<open>inf\<close> or \<open>nan\<close> here\<close>

subsection \<open>Strings: slices and \<open>float\<close>\<close>

text \<open>Python's \<open>s[i:j]\<close> for \<open>0 \<le> i \<le> j\<close>: it never raises, and is shorter (or empty)
  when the string ends early.\<close>

definition slice :: "nat \<Rightarrow> nat \<Rightarrow> string \<Rightarrow> string" where
  "slice i j s = take (j - i) (drop i s)"

text \<open>The characters that \<open>float\<close> strips from both ends (code points below 256).\<close>

definition is_space :: "char \<Rightarrow> bool" where
  "is_space c = (let n = (of_char c :: nat) in
     (9 \<le> n \<and> n \<le> 13) \<or> (28 \<le> n \<and> n \<le> 32) \<or> n = 133 \<or> n = 160)"

definition strip :: "string \<Rightarrow> string" where
  "strip s = rev (dropWhile is_space (rev (dropWhile is_space s)))"

definition is_digit :: "char \<Rightarrow> bool" where
  "is_digit c = (let n = (of_char c :: nat) in 48 \<le> n \<and> n \<le> 57)"

fun digits_value :: "nat \<Rightarrow> string \<Rightarrow> nat" where
  "digits_value acc [] = acc"
| "digits_value acc (c # cs) = digits_value (10 * acc + ((of_char c :: nat) - 48)) cs"

text \<open>
  \<open>float(s)\<close> on a string: surrounding white space, an optional sign, digits with an
  optional decimal point and at least one digit. \<open>None\<close> is the \<open>ValueError\<close>.
  Python's grammar has more (exponents, \<open>inf\<close>, \<open>nan\<close>, underscores between digits),
  but each of those needs three characters or more, and the program only converts
  slices of at most two characters, on which this function is Python's.
\<close>

definition py_float :: "string \<Rightarrow> real option" where
  "py_float s =
     (let u = strip s;
          neg = (case u of [] \<Rightarrow> False | c # _ \<Rightarrow> c = CHR ''-'');
          body = (case u of [] \<Rightarrow> [] | c # r \<Rightarrow> if c = CHR ''+'' \<or> c = CHR ''-'' then r else u);
          ip = takeWhile (\<lambda>c. c \<noteq> CHR ''.'') body;
          fp = (case dropWhile (\<lambda>c. c \<noteq> CHR ''.'') body of [] \<Rightarrow> [] | _ # f \<Rightarrow> f)
      in if ip = [] \<and> fp = [] then None
         else if list_all is_digit ip \<and> list_all is_digit fp
         then Some ((if neg then - 1 else 1) *
                    (real (digits_value 0 ip) + real (digits_value 0 fp) / 10 ^ length fp))
         else None)"

subsection \<open>Configuration and datasets\<close>

text \<open>The options that the two methods read with \<open>getfloat\<close>, already converted.\<close>

record config =
  lat_center :: real
  lon_center :: real
  radius :: real
  psi0 :: real
  convergence_eval_time :: real
  icos_conv_thresh :: real
  icos_conv_max :: real
  qu_conv_thresh :: real
  qu_conv_max :: real

text \<open>
  The three datasets of one resolution. A variable over dimensions is a function of
  its indices together with the sizes of the dimensions, as an array is; \<open>xtime\<close>
  holds, for every index of the dimension \<open>Time\<close>, the string that
  \<open>str(ds.xtime[j].values)\<close> returns.
\<close>

record ds_mesh =
  sphere_radius :: real
  mesh_nCells :: nat
  latCell :: "nat \<Rightarrow> real"
  lonCell :: "nat \<Rightarrow> real"

record ds_init =
  init_nTime :: nat
  init_nCells :: nat
  init_nVertLevels :: nat
  init_tracer1 :: "nat \<Rightarrow> nat \<Rightarrow> nat \<Rightarrow> real"

record ds_output =
  xtime :: "string list"
  out_nCells :: nat
  out_nVertLevels :: nat
  out_tracer1 :: "nat \<Rightarrow> nat \<Rightarrow> nat \<Rightarrow> real"

text \<open>The files of the work directory that \<open>xr.open_dataset\<close> can open, by name.\<close>

record datasets =
  mesh_files :: "string \<rightharpoonup> ds_mesh"
  init_files :: "string \<rightharpoonup> ds_init"
  output_files :: "string \<rightharpoonup> ds_output"

subsection \<open>\<open>rmse\<close>, lines 154 to 163: the time step and the elapsed time\<close>

text \<open>
  The loop assigns three local variables, and Python keeps them after the loop;
  each is \<open>None\<close> until its first assignment.
\<close>

record loop_vars =
  v_tt :: "string option"
  v_DY :: "real option"
  v_sliceTime :: "nat option"

definition no_vars :: loop_vars where
  "no_vars = \<lparr>v_tt = None, v_DY = None, v_sliceTime = None\<rparr>"

text \<open>\<open>time_loop ev ts j vs\<close> runs the loop from index \<open>j\<close> over the remaining
  time strings \<open>ts\<close>. The call \<open>tt.rfind('_')\<close> has no effect.\<close>

fun time_loop :: "real \<Rightarrow> string list \<Rightarrow> nat \<Rightarrow> loop_vars \<Rightarrow> error + loop_vars" where
  "time_loop ev [] j vs = Inr vs"
| "time_loop ev (s # ts) j vs =
     (case py_float (slice 10 12 s) of
        None \<Rightarrow> Inl (FloatValueError (slice 10 12 s))
      | Some d \<Rightarrow>
          (let vs' = vs\<lparr>v_tt := Some s, v_DY := Some (d - 1)\<rparr>
           in if d - 1 = ev then Inr (vs'\<lparr>v_sliceTime := Some j\<rparr>)
              else time_loop ev ts (Suc j) vs'))"

text \<open>Lines 161 to 163, on the variables the loop has left.\<close>

definition elapsed_time :: "loop_vars \<Rightarrow> error + real" where
  "elapsed_time vs =
     (case v_tt vs of
        None \<Rightarrow> Inl (UnboundLocalError ''tt'')
      | Some s \<Rightarrow>
          (case py_float (slice 13 15 s) of
             None \<Rightarrow> Inl (FloatValueError (slice 13 15 s))
           | Some HR \<Rightarrow>
               (case py_float (slice 16 18 s) of
                  None \<Rightarrow> Inl (FloatValueError (slice 16 18 s))
                | Some MN \<Rightarrow>
                    (case v_DY vs of
                       None \<Rightarrow> Inl (UnboundLocalError ''DY'')
                     | Some DY \<Rightarrow> Inr (86400 * DY + HR * 3600 + MN)))))"

subsection \<open>\<open>rmse\<close>, lines 166 to 172: the new centre of the bell\<close>

text \<open>Line 167.\<close>

definition distTrav_of :: "real \<Rightarrow> real \<Rightarrow> real \<Rightarrow> error + real" where
  "distTrav_of R ev t =
     (if 86400 * ev = 0 then Inl NonFinite
      else Inr (2 * (314159265 / 100000000) * R / (86400 * ev) * t))"

text \<open>Lines 169 to 172.\<close>

definition newLon_of :: "real \<Rightarrow> real \<Rightarrow> real \<Rightarrow> error + real" where
  "newLon_of lonCent distTrav R =
     (if R = 0 then Inl NonFinite
      else (let distRad = distTrav / R;
                newLon = lonCent + distRad
            in Inr (if newLon > 2 * pi then newLon - 2 * pi else newLon)))"

subsection \<open>\<open>rmse\<close>, lines 175 to 183: the analytic tracer\<close>

text \<open>Line 178, for one cell.\<close>

definition great_circle :: "real \<Rightarrow> real \<Rightarrow> real \<Rightarrow> real \<Rightarrow> real \<Rightarrow> real" where
  "great_circle R latCent newLon latC lonC =
     R * arccos (sin latCent * sin latC + cos latCent * cos latC * cos (lonC - newLon))"

text \<open>Lines 181 to 183, for one cell whose distance is \<open>d\<close>: zero from
  \<open>np.zeros_like\<close> where the mask is false.\<close>

definition tracer_cell :: "real \<Rightarrow> real \<Rightarrow> real \<Rightarrow> error + real" where
  "tracer_cell amp rad d =
     (if d < rad
      then (if rad = 0 then Inl NonFinite
            else Inr (amp / 2 * (1 + cos (31415926 / 10000000 * d / rad))))
      else Inr 0)"

text \<open>A list of results is a result: the first failure, or all the values.\<close>

fun sequence :: "(error + 'a) list \<Rightarrow> error + 'a list" where
  "sequence [] = Inr []"
| "sequence (r # rs) =
     (case r of
        Inl e \<Rightarrow> Inl e
      | Inr v \<Rightarrow> (case sequence rs of Inl e \<Rightarrow> Inl e | Inr vs \<Rightarrow> Inr (v # vs)))"

text \<open>
  Lines 175 to 183. \<open>ds_init.tracer1[0, :, 0]\<close> needs a first time step and a first
  layer; the right-hand side of line 182 is computed over the cells of the mesh,
  and the masked assignment needs a mask as long as the array it indexes.
\<close>

definition analytic_tracer ::
    "config \<Rightarrow> ds_mesh \<Rightarrow> ds_init \<Rightarrow> real \<Rightarrow> error + real list" where
  "analytic_tracer cfg mesh init newLon =
     (if init_nTime init = 0 \<or> init_nVertLevels init = 0 then Inl IndexError
      else (let temp = map (\<lambda>i. great_circle (sphere_radius mesh) (lat_center cfg) newLon
                                    (latCell mesh i) (lonCell mesh i))
                           [0 ..< mesh_nCells mesh]
            in case sequence (map (tracer_cell (psi0 cfg) (radius cfg)) temp) of
                 Inl e \<Rightarrow> Inl e
               | Inr tracer \<Rightarrow>
                   if mesh_nCells mesh = init_nCells init then Inr tracer
                   else Inl IndexError))"

subsection \<open>\<open>rmse\<close>, lines 186 to 189: the error\<close>

text \<open>\<open>ds.tracer1[k, :, 0].values\<close>.\<close>

definition forward_tracer :: "ds_output \<Rightarrow> nat \<Rightarrow> error + real list" where
  "forward_tracer ds k =
     (if k < length (xtime ds) \<and> 0 < out_nVertLevels ds
      then Inr (map (\<lambda>i. out_tracer1 ds k i 0) [0 ..< out_nCells ds])
      else Inl IndexError)"

text \<open>The difference of two one-dimensional arrays, with numpy's broadcasting of
  an array of length one.\<close>

definition np_subtract :: "real list \<Rightarrow> real list \<Rightarrow> error + real list" where
  "np_subtract a b =
     (if length a = length b then Inr (map (\<lambda>(x, y). x - y) (zip a b))
      else if length a = 1 then Inr (map (\<lambda>y. hd a - y) b)
      else if length b = 1 then Inr (map (\<lambda>x. x - hd b) a)
      else Inl BroadcastError)"

text \<open>\<open>np.mean\<close>: of an empty array it is \<open>nan\<close>.\<close>

definition np_mean :: "real list \<Rightarrow> error + real" where
  "np_mean a = (if a = [] then Inl NonFinite else Inr (sum_list a / real (length a)))"

text \<open>Line 187.\<close>

definition rmse_value :: "real list \<Rightarrow> real list \<Rightarrow> error + real" where
  "rmse_value tracerF tracer =
     (case np_subtract tracerF tracer of
        Inl e \<Rightarrow> Inl e
      | Inr diff \<Rightarrow>
          (case np_mean (map (\<lambda>x. x ^ 2) diff) of
             Inl e \<Rightarrow> Inl e
           | Inr m \<Rightarrow> Inr (sqrt m)))"

subsection \<open>\<open>rmse\<close>, the whole method\<close>

definition rmse :: "config \<Rightarrow> datasets \<Rightarrow> string \<Rightarrow> error + (real \<times> nat)" where
  "rmse cfg fs mesh_name =
     (case mesh_files fs (mesh_name @ ''_mesh.nc'') of
        None \<Rightarrow> Inl (FileNotFoundError (mesh_name @ ''_mesh.nc''))
      | Some mesh \<Rightarrow>
     (case init_files fs (mesh_name @ ''_init.nc'') of
        None \<Rightarrow> Inl (FileNotFoundError (mesh_name @ ''_init.nc''))
      | Some init \<Rightarrow>
     (case output_files fs (mesh_name @ ''_output.nc'') of
        None \<Rightarrow> Inl (FileNotFoundError (mesh_name @ ''_output.nc''))
      | Some ds \<Rightarrow>
     (case time_loop (convergence_eval_time cfg) (xtime ds) 0 no_vars of
        Inl e \<Rightarrow> Inl e
      | Inr vs \<Rightarrow>
     (case elapsed_time vs of
        Inl e \<Rightarrow> Inl e
      | Inr t \<Rightarrow>
     (case distTrav_of (sphere_radius mesh) (convergence_eval_time cfg) t of
        Inl e \<Rightarrow> Inl e
      | Inr distTrav \<Rightarrow>
     (case newLon_of (lon_center cfg) distTrav (sphere_radius mesh) of
        Inl e \<Rightarrow> Inl e
      | Inr newLon \<Rightarrow>
     (case analytic_tracer cfg mesh init newLon of
        Inl e \<Rightarrow> Inl e
      | Inr tracer \<Rightarrow>
     (case v_sliceTime vs of
        None \<Rightarrow> Inl (UnboundLocalError ''sliceTime'')
      | Some k \<Rightarrow>
     (case forward_tracer ds k of
        Inl e \<Rightarrow> Inl e
      | Inr tracerF \<Rightarrow>
     (case rmse_value tracerF tracer of
        Inl e \<Rightarrow> Inl e
      | Inr rmseValue \<Rightarrow> Inr (rmseValue, init_nCells init))))))))))))"

subsection \<open>\<open>run\<close>, lines 92 to 96: the fit\<close>

text \<open>\<open>np.log10\<close> of an array: \<open>-inf\<close> at zero and \<open>nan\<close> below.\<close>

definition np_log10 :: "real list \<Rightarrow> error + real list" where
  "np_log10 a = (if list_all (\<lambda>x. 0 < x) a then Inr (map (log 10) a) else Inl NonFinite)"

text \<open>
  \<open>np.polyfit(x, y, 1)\<close> is numpy's least-squares fit of a line; it returns the
  slope first and the intercept second. numpy divides the two columns of the
  matrix (the abscissae, and the ones) by their norms, takes the least-squares
  solution of least norm of that system, and divides the solution by the norms
  again.

  When the abscissae are not all equal (\<open>D \<noteq> 0\<close> below) there is one least-squares
  line, the solution of the normal equations. When they are all equal to some \<open>k\<close>
  (\<open>D = 0\<close>: the matrix has rank one, and numpy warns \<open>RankWarning\<close>), every line
  through the mean \<open>\<mu>\<close> of the ordinates at \<open>k\<close> is a least-squares line, and the one
  of least norm in the scaled system has the slope \<open>\<mu> / (2 k)\<close> and the intercept
  \<open>\<mu> / 2\<close>, which are \<open>Sy / (2 Sx)\<close> and \<open>Sy / (2 n)\<close>. When that \<open>k\<close> is zero the norm
  of the first column is zero, and the division by it is of zero by zero.
\<close>

definition polyfit1 :: "real list \<Rightarrow> real list \<Rightarrow> error + (real \<times> real)" where
  "polyfit1 x y =
     (if x = [] then Inl EmptyVectorError
      else if length x \<noteq> length y then Inl FitLengthError
      else (let n = real (length x);
                Sx = sum_list x;
                Sy = sum_list y;
                Sxx = sum_list (map (\<lambda>a. a * a) x);
                Sxy = sum_list (map (\<lambda>(a, b). a * b) (zip x y));
                D = n * Sxx - Sx * Sx
            in if D = 0
               then (if Sxx = 0 then Inl NonFinite else Inr (Sy / (2 * Sx), Sy / (2 * n)))
               else (let m = (n * Sxy - Sx * Sy) / D in Inr (m, (Sy - m * Sx) / n))))"

text \<open>Whether the fit warns \<open>RankWarning\<close>: the rank of the matrix is below two.\<close>

definition rank_deficient :: "real list \<Rightarrow> bool" where
  "rank_deficient x =
     (real (length x) * sum_list (map (\<lambda>a. a * a) x) - sum_list x * sum_list x = 0)"

text \<open>Lines 92 to 96: the coefficients \<open>p[0]\<close>, \<open>p[1]\<close> and the order \<open>conv\<close>.\<close>

definition convergence_fit :: "nat list \<Rightarrow> real list \<Rightarrow> error + (real \<times> real \<times> real)" where
  "convergence_fit xdata ydata =
     (case np_log10 (map real xdata) of
        Inl e \<Rightarrow> Inl e
      | Inr lx \<Rightarrow>
          (case np_log10 ydata of
             Inl e \<Rightarrow> Inl e
           | Inr ly \<Rightarrow>
               (case polyfit1 lx ly of
                  Inl e \<Rightarrow> Inl e
                | Inr (p0, p1) \<Rightarrow> Inr (p0, p1, \<bar>p0\<bar> * 2))))"

subsection \<open>\<open>run\<close>, lines 98 to 122: the plot and the thresholds\<close>

text \<open>
  What \<open>run\<close> changes outside itself: the image files it saves and the warnings it
  issues. A plot is what was drawn: the fitted curve, the points, and the order in
  the annotation (which the figure shows rounded to three places).
\<close>

record plot =
  fit_line :: "(real \<times> real) list"
  points :: "(real \<times> real) list"
  annotated_order :: real

datatype warning =
    OrderAboveTolerance real real
      \<comment> \<open>the warning of line 121: the order and the maximum tolerance\<close>
  | RankWarning
      \<comment> \<open>the warning of \<open>np.polyfit\<close> in line 95\<close>

record world =
  images :: "string \<rightharpoonup> plot"
  warnings :: "warning list"

text \<open>The warnings of line 95.\<close>

definition fit_warnings :: "nat list \<Rightarrow> warning list" where
  "fit_warnings xdata =
     (if rank_deficient (map (log 10) (map real xdata)) then [RankWarning] else [])"

text \<open>Lines 98 to 106.\<close>

definition save_plot :: "nat list \<Rightarrow> real list \<Rightarrow> real \<Rightarrow> real \<Rightarrow> real \<Rightarrow> world \<Rightarrow> world" where
  "save_plot xdata ydata p0 p1 conv w =
     (let yfit = map (\<lambda>x. real x powr p0 * 10 powr p1) xdata
      in w\<lparr>images := (images w)(''convergence.png'' \<mapsto>
             \<lparr>fit_line = zip (map real xdata) yfit,
              points = zip (map real xdata) ydata,
              annotated_order = conv\<rparr>)\<rparr>)"

text \<open>Lines 108 to 114.\<close>

definition thresholds :: "bool \<Rightarrow> config \<Rightarrow> real \<times> real" where
  "thresholds icos cfg =
     (if icos then (icos_conv_thresh cfg, icos_conv_max cfg)
      else (qu_conv_thresh cfg, qu_conv_max cfg))"

text \<open>Lines 116 to 122.\<close>

definition check_order :: "real \<Rightarrow> real \<Rightarrow> real \<Rightarrow> world \<Rightarrow> world \<times> (error + unit)" where
  "check_order conv conv_thresh conv_max w =
     (if conv < conv_thresh then (w, Inl (OrderBelowTolerance conv conv_thresh))
      else if conv > conv_max
           then (w\<lparr>warnings := warnings w @ [OrderAboveTolerance conv conv_max]\<rparr>, Inr ())
           else (w, Inr ()))"

text \<open>Lines 92 to 122: everything \<open>run\<close> does once the two lists are there.\<close>

definition run_evaluate ::
    "bool \<Rightarrow> config \<Rightarrow> nat list \<Rightarrow> real list \<Rightarrow> world \<Rightarrow> world \<times> (error + unit)" where
  "run_evaluate icos cfg xdata ydata w =
     (case convergence_fit xdata ydata of
        Inl e \<Rightarrow> (w, Inl e)
      | Inr (p0, p1, conv) \<Rightarrow>
          (let w0 = w\<lparr>warnings := warnings w @ fit_warnings xdata\<rparr>;
               w1 = save_plot xdata ydata p0 p1 conv w0;
               (conv_thresh, conv_max) = thresholds icos cfg
           in check_order conv conv_thresh conv_max w1))"

subsection \<open>\<open>run\<close>, the whole method\<close>

text \<open>
  The step: its resolutions, its mesh family and its configuration.
  \<open>resolution_to_subdir\<close> is imported from \<open>polaris.ocean.resolution\<close> and is a
  parameter here.
\<close>

record analysis =
  resolutions :: "real list"
  icosahedral :: bool
  step_config :: config

text \<open>Lines 85 to 91: the loop over the resolutions; \<open>xdata\<close> are the numbers of
  cells and \<open>ydata\<close> the errors, in the order of the resolutions.\<close>

fun collect ::
    "(real \<Rightarrow> string) \<Rightarrow> config \<Rightarrow> datasets \<Rightarrow> real list \<Rightarrow> error + (nat list \<times> real list)" where
  "collect resolution_to_subdir cfg fs [] = Inr ([], [])"
| "collect resolution_to_subdir cfg fs (resolution # rest) =
     (case rmse cfg fs (resolution_to_subdir resolution) of
        Inl e \<Rightarrow> Inl e
      | Inr (rmseValue, nCells) \<Rightarrow>
          (case collect resolution_to_subdir cfg fs rest of
             Inl e \<Rightarrow> Inl e
           | Inr (xdata, ydata) \<Rightarrow> Inr (nCells # xdata, rmseValue # ydata)))"

definition run ::
    "(real \<Rightarrow> string) \<Rightarrow> analysis \<Rightarrow> datasets \<Rightarrow> world \<Rightarrow> world \<times> (error + unit)" where
  "run resolution_to_subdir self fs w =
     (case collect resolution_to_subdir (step_config self) fs (resolutions self) of
        Inl e \<Rightarrow> (w, Inl e)
      | Inr (xdata, ydata) \<Rightarrow>
          run_evaluate (icosahedral self) (step_config self) xdata ydata w)"

subsection \<open>The least-squares criterion\<close>

text \<open>The sum of the squared residuals of the line with slope \<open>a\<close> and intercept
  \<open>b\<close> on the points \<open>(x, y)\<close>: what a least-squares fit makes least.\<close>

definition sq_residuals :: "real list \<Rightarrow> real list \<Rightarrow> real \<Rightarrow> real \<Rightarrow> real" where
  "sq_residuals x y a b = sum_list (map (\<lambda>(u, v). (v - (a * u + b)) ^ 2) (zip x y))"

subsection \<open>A small work directory\<close>

text \<open>
  Concrete inputs on which the definitions are evaluated further down: the options
  of the cosine bell with an evaluation time of one day, and two meshes, of one and
  of two cells. Cell 0 lies where the centre of the bell is after one day, cell 1 a
  quarter of a turn further east on the equator. The forward run is off by one in
  every cell.
\<close>

definition demo_cfg :: config where
  "demo_cfg =
     \<lparr>lat_center = 0, lon_center = 314159265 / 100000000, radius = 21236666667 / 10000,
      psi0 = 1, convergence_eval_time = 1,
      icos_conv_thresh = 18 / 10, icos_conv_max = 22 / 10,
      qu_conv_thresh = 18 / 10, qu_conv_max = 22 / 10\<rparr>"

definition demo_centre :: real where
  "demo_centre = 942477795 / 100000000 - 2 * pi"

definition demo_mesh :: "nat \<Rightarrow> ds_mesh" where
  "demo_mesh n =
     \<lparr>sphere_radius = 6371220, mesh_nCells = n,
      latCell = (\<lambda>i. 0),
      lonCell = (\<lambda>i. if i = 0 then demo_centre else demo_centre + pi / 2)\<rparr>"

definition demo_init :: "nat \<Rightarrow> ds_init" where
  "demo_init n =
     \<lparr>init_nTime = 1, init_nCells = n, init_nVertLevels = 1,
      init_tracer1 = (\<lambda>t i k. if i = 0 then 1 else 0)\<rparr>"

definition demo_output :: "string list \<Rightarrow> nat \<Rightarrow> ds_output" where
  "demo_output ts n =
     \<lparr>xtime = ts, out_nCells = n, out_nVertLevels = 1,
      out_tracer1 = (\<lambda>t i k. if i = 0 then 0 else 1)\<rparr>"

definition demo_fs :: "string list \<Rightarrow> datasets" where
  "demo_fs ts =
     \<lparr>mesh_files = [''240km_mesh.nc'' \<mapsto> demo_mesh 1, ''120km_mesh.nc'' \<mapsto> demo_mesh 2],
      init_files = [''240km_init.nc'' \<mapsto> demo_init 1, ''120km_init.nc'' \<mapsto> demo_init 2],
      output_files = [''240km_output.nc'' \<mapsto> demo_output ts 1,
                      ''120km_output.nc'' \<mapsto> demo_output ts 2]\<rparr>"

definition demo_subdir :: "real \<Rightarrow> string" where
  "demo_subdir r = (if r = 240 then ''240km'' else ''120km'')"

definition demo_step :: analysis where
  "demo_step = \<lparr>resolutions = [240, 120], icosahedral = True, step_config = demo_cfg\<rparr>"

definition demo_world :: world where
  "demo_world = \<lparr>images = Map.empty, warnings = []\<rparr>"

text \<open>What \<open>str\<close> returns on a value of numpy's bytes type with printable content \<open>s\<close>:
  the content between \<open>b'\<close> and \<open>'\<close>. The offsets of the slices in \<open>rmse\<close> count the
  two leading characters.\<close>

definition bytes_str :: "string \<Rightarrow> string" where
  "bytes_str s = CHR ''b'' # CHR 0x27 # s @ [CHR 0x27]"

text \<open>Two time steps, the second one day after the start; and the first alone.\<close>

definition two_days :: "string list" where
  "two_days = [bytes_str ''0001-01-01_00:00:00'', bytes_str ''0001-01-02_00:00:00'']"

definition first_day :: "string list" where
  "first_day = [bytes_str ''0001-01-01_00:00:00'']"

text \<open>The scenario of three resolutions: the numbers of cells \<open>[100, 400, 1600]\<close>
  and the errors \<open>[0.1, 0.025, 0.00625]\<close>.\<close>

definition three_counts :: "nat list" where
  "three_counts = [100, 400, 1600]"

definition three_errors :: "real list" where
  "three_errors = [1 / 10, 25 / 1000, 625 / 100000]"

section \<open>Least squares: the line that \<open>polyfit1\<close> returns\<close>

lemma sum_zip_fst:
  "length x = length y \<Longrightarrow> sum_list (map (\<lambda>(u, v). f u) (zip x y)) = sum_list (map f x)"
  by (induction x y rule: list_induct2) simp_all

lemma sum_zip_snd:
  "length x = length y \<Longrightarrow> sum_list (map (\<lambda>(u, v). f v) (zip x y)) = sum_list (map f y)"
  by (induction x y rule: list_induct2) simp_all

lemma sq_residuals_expand:
  assumes "length x = length y"
  shows "sq_residuals x y a b =
           sum_list (map (\<lambda>v. v * v) y)
           - 2 * a * sum_list (map (\<lambda>(u, v). u * v) (zip x y))
           - 2 * b * sum_list y
           + a * a * sum_list (map (\<lambda>u. u * u) x)
           + 2 * a * b * sum_list x
           + real (length x) * (b * b)"
  using assms unfolding sq_residuals_def
  by (induction x y rule: list_induct2) (simp_all add: algebra_simps power2_eq_square)

lemma line_squares_expand:
  "sum_list (map (\<lambda>u. (p * u + q) ^ 2) x) =
     p * p * sum_list (map (\<lambda>u. u * u) x) + 2 * p * q * sum_list x + real (length x) * (q * q)"
  by (induction x) (simp_all add: algebra_simps power2_eq_square)

lemma line_squares_nonneg: "0 \<le> sum_list (map (\<lambda>u. (p * u + q) ^ 2) (x :: real list))"
  by (rule sum_list_nonneg) auto

lemma line_squares_zero:
  assumes "sum_list (map (\<lambda>u. (p * u + q) ^ 2) (x :: real list)) = 0" "u \<in> set x"
  shows "p * u + q = 0"
proof -
  have "\<forall>z \<in> set (map (\<lambda>u. (p * u + q) ^ 2) x). z = 0"
    using assms(1) by (subst (asm) sum_list_nonneg_eq_0_iff) auto
  with assms(2) show ?thesis by auto
qed

lemma normal_det_pos:
  fixes x :: "real list"
  assumes "u \<in> set x" "v \<in> set x" "u \<noteq> v"
  shows "0 < real (length x) * sum_list (map (\<lambda>a. a * a) x) - sum_list x * sum_list x"
proof -
  define n where "n = real (length x)"
  define mu where "mu = sum_list x / n"
  have npos: "0 < n" using assms(1) by (cases x) (auto simp: n_def)
  have e: "sum_list (map (\<lambda>a. (1 * a + (- mu)) ^ 2) x) =
           sum_list (map (\<lambda>a. a * a) x) - sum_list x * sum_list x / n"
    unfolding line_squares_expand using npos
    by (simp add: mu_def n_def field_simps)
  have nn: "0 \<le> sum_list (map (\<lambda>a. (1 * a + (- mu)) ^ 2) x)"
    by (rule line_squares_nonneg)
  have "sum_list (map (\<lambda>a. (1 * a + (- mu)) ^ 2) x) \<noteq> 0"
  proof
    assume z: "sum_list (map (\<lambda>a. (1 * a + (- mu)) ^ 2) x) = 0"
    from line_squares_zero [OF z assms(1)] line_squares_zero [OF z assms(2)] assms(3)
    show False by simp
  qed
  with nn have "0 < sum_list (map (\<lambda>a. (1 * a + (- mu)) ^ 2) x)" by simp
  with e have "0 < sum_list (map (\<lambda>a. a * a) x) - sum_list x * sum_list x / n" by simp
  then have "0 < n * (sum_list (map (\<lambda>a. a * a) x) - sum_list x * sum_list x / n)"
    using npos by simp
  also have "\<dots> = n * sum_list (map (\<lambda>a. a * a) x) - sum_list x * sum_list x"
    using npos by (simp add: field_simps)
  finally show ?thesis by (simp add: n_def)
qed

lemma normal_equations_decompose:
  assumes len: "length x = length y"
    and e1: "sum_list y = real (length x) * c + m * sum_list x"
    and e2: "sum_list (map (\<lambda>(a, b). a * b) (zip x y))
               = m * sum_list (map (\<lambda>a. a * a) x) + c * sum_list x"
  shows "sq_residuals x y a b =
           sq_residuals x y m c + sum_list (map (\<lambda>u. ((a - m) * u + (b - c)) ^ 2) x)"
proof -
  define n where "n = real (length x)"
  define Sx where "Sx = sum_list x"
  define Sy where "Sy = sum_list y"
  define Sxx where "Sxx = sum_list (map (\<lambda>a. a * a) x)"
  define Sxy where "Sxy = sum_list (map (\<lambda>(a, b). a * b) (zip x y))"
  define Syy where "Syy = sum_list (map (\<lambda>v. v * v) y)"
  have e1': "Sy = n * c + m * Sx" using e1 by (simp add: Sy_def n_def Sx_def)
  have e2': "Sxy = m * Sxx + c * Sx" using e2 by (simp add: Sxy_def Sxx_def Sx_def)
  have "Syy - 2 * a * Sxy - 2 * b * Sy + a * a * Sxx + 2 * a * b * Sx + n * (b * b) =
        (Syy - 2 * m * Sxy - 2 * c * Sy + m * m * Sxx + 2 * m * c * Sx + n * (c * c)) +
        ((a - m) * (a - m) * Sxx + 2 * (a - m) * (b - c) * Sx + n * ((b - c) * (b - c)))"
    unfolding e2' e1' by (simp add: algebra_simps)
  then show ?thesis
    unfolding sq_residuals_expand [OF len] line_squares_expand
    by (simp add: n_def Sx_def Sy_def Sxx_def Sxy_def Syy_def)
qed

text \<open>A matrix of rank one: the abscissae are all equal.\<close>

lemma sums_of_constant:
  fixes x :: "real list"
  assumes "\<forall>u\<in>set x. u = k"
  shows "sum_list x = real (length x) * k"
    and "sum_list (map (\<lambda>a. a * a) x) = real (length x) * (k * k)"
  using assms by (induction x) (simp_all add: algebra_simps)

lemma sum_zip_of_constant:
  fixes x :: "real list"
  assumes "length x = length y" and "\<forall>u\<in>set x. u = k"
  shows "sum_list (map (\<lambda>(a, b). a * b) (zip x y)) = k * sum_list y"
  using assms by (induction x y rule: list_induct2) (simp_all add: algebra_simps)

lemma rank_one_constant:
  fixes x :: "real list"
  assumes "real (length x) * sum_list (map (\<lambda>a. a * a) x) - sum_list x * sum_list x = 0"
    and "x \<noteq> []"
  shows "\<forall>u\<in>set x. u = hd x"
proof
  fix u
  assume u: "u \<in> set x"
  have h: "hd x \<in> set x" using assms(2) by simp
  show "u = hd x"
  proof (rule ccontr)
    assume "u \<noteq> hd x"
    from normal_det_pos [OF u h this] assms(1) show False by simp
  qed
qed

lemma polyfit1_normal_equations:
  assumes len: "length x = length y" and fit: "polyfit1 x y = Inr (m, c)"
  shows "sum_list y = real (length x) * c + m * sum_list x"
    and "sum_list (map (\<lambda>(a, b). a * b) (zip x y))
           = m * sum_list (map (\<lambda>a. a * a) x) + c * sum_list x"
proof -
  define n where "n = real (length x)"
  define Sx where "Sx = sum_list x"
  define Sy where "Sy = sum_list y"
  define Sxx where "Sxx = sum_list (map (\<lambda>a. a * a) x)"
  define Sxy where "Sxy = sum_list (map (\<lambda>(a, b). a * b) (zip x y))"
  define D where "D = n * Sxx - Sx * Sx"
  from fit have ne: "x \<noteq> []" by (auto simp: polyfit1_def split: if_splits)
  then have n0: "n \<noteq> 0" by (simp add: n_def)
  have "Sy = n * c + m * Sx \<and> Sxy = m * Sxx + c * Sx"
  proof (cases "D = 0")
    case False
    with fit ne len have m: "m = (n * Sxy - Sx * Sy) / D" and c: "c = (Sy - m * Sx) / n"
      by (auto simp: polyfit1_def Let_def n_def Sx_def Sy_def Sxx_def Sxy_def D_def
          split: if_splits)
    have e1: "Sy = n * c + m * Sx" using c n0 by (simp add: field_simps)
    have "m * D = n * Sxy - Sx * Sy" using m False by simp
    then have "n * (m * Sxx + c * Sx) = n * Sxy"
      unfolding D_def e1 by (simp add: algebra_simps)
    then have "Sxy = m * Sxx + c * Sx" using n0 by simp
    with e1 show ?thesis by simp
  next
    case True
    with fit ne len have s0: "Sxx \<noteq> 0" and m: "m = Sy / (2 * Sx)" and c: "c = Sy / (2 * n)"
      by (auto simp: polyfit1_def Let_def n_def Sx_def Sy_def Sxx_def Sxy_def D_def
          split: if_splits)
    from True have "\<forall>u\<in>set x. u = hd x"
      unfolding D_def n_def Sx_def Sxx_def using ne by (rule rank_one_constant)
    note k = sums_of_constant [OF this] sum_zip_of_constant [OF len this]
    have Sx: "Sx = n * hd x" and Sxx: "Sxx = n * (hd x * hd x)" and Sxy: "Sxy = hd x * Sy"
      using k by (simp_all add: Sx_def Sxx_def Sxy_def Sy_def n_def)
    from s0 Sxx have k0: "hd x \<noteq> 0" by auto
    have e1: "Sy = n * c + m * Sx" using n0 k0 by (simp add: m c Sx field_simps)
    have e2: "Sxy = m * Sxx + c * Sx" using n0 k0 by (simp add: m c Sx Sxx Sxy field_simps)
    from e1 e2 show ?thesis by simp
  qed
  then show "sum_list y = real (length x) * c + m * sum_list x"
    and "sum_list (map (\<lambda>(a, b). a * b) (zip x y))
           = m * sum_list (map (\<lambda>a. a * a) x) + c * sum_list x"
    by (simp_all add: n_def Sx_def Sy_def Sxx_def Sxy_def)
qed

lemma polyfit1_decompose:
  assumes len: "length x = length y" and fit: "polyfit1 x y = Inr (m, c)"
  shows "sq_residuals x y a b =
           sq_residuals x y m c + sum_list (map (\<lambda>u. ((a - m) * u + (b - c)) ^ 2) x)"
  by (rule normal_equations_decompose [OF len polyfit1_normal_equations [OF len fit]])

lemma polyfit1_least:
  assumes "length x = length y" "polyfit1 x y = Inr (m, c)"
  shows "sq_residuals x y m c \<le> sq_residuals x y a b"
  unfolding polyfit1_decompose [OF assms, of a b]
  using line_squares_nonneg [of "a - m" "b - c" x] by simp

lemma polyfit1_unique:
  assumes len: "length x = length y" and fit: "polyfit1 x y = Inr (m, c)"
    and le: "sq_residuals x y a b \<le> sq_residuals x y m c"
    and uv: "u \<in> set x" "v \<in> set x" "u \<noteq> v"
  shows "a = m \<and> b = c"
proof -
  have "sum_list (map (\<lambda>u. ((a - m) * u + (b - c)) ^ 2) x) \<le> 0"
    using le unfolding polyfit1_decompose [OF len fit, of a b] by simp
  with line_squares_nonneg [of "a - m" "b - c" x]
  have z: "sum_list (map (\<lambda>u. ((a - m) * u + (b - c)) ^ 2) x) = 0" by simp
  have 1: "(a - m) * u + (b - c) = 0" and 2: "(a - m) * v + (b - c) = 0"
    using line_squares_zero [OF z] uv by auto
  then have "(a - m) * (u - v) = 0" by (simp add: algebra_simps)
  with uv(3) have "a = m" by simp
  with 1 show ?thesis by simp
qed

lemma polyfit1_defined:
  fixes x :: "real list"
  assumes "length x = length y" and "u \<in> set x" and "u \<noteq> 0"
  shows "\<exists>m c. polyfit1 x y = Inr (m, c)"
proof -
  have "sum_list (map (\<lambda>a. a * a) x) \<noteq> 0"
  proof
    assume "sum_list (map (\<lambda>a. a * a) x) = 0"
    then have "\<forall>z\<in>set (map (\<lambda>a. a * a) x). z = 0"
      by (subst (asm) sum_list_nonneg_eq_0_iff) auto
    with assms(2,3) show False by auto
  qed
  with assms(1,2) show ?thesis by (auto simp: polyfit1_def Let_def)
qed

lemma sum_zip_line:
  "sum_list (map (\<lambda>(a, b). a * b) (zip x (map (\<lambda>u. al * u + be) x))) =
     al * sum_list (map (\<lambda>a. a * a) x) + be * sum_list (x :: real list)"
proof (induction x)
  case Nil
  show ?case by simp
next
  case (Cons a x)
  then show ?case by (simp add: algebra_simps)
qed

lemma sum_line:
  "sum_list (map (\<lambda>u. al * u + be) x) = al * sum_list x + real (length x) * be"
  by (induction x) (simp_all add: algebra_simps)

lemma polyfit1_exact_line:
  fixes x :: "real list"
  assumes uv: "u \<in> set x" "v \<in> set x" "u \<noteq> v"
  shows "polyfit1 x (map (\<lambda>u. al * u + be) x) = Inr (al, be)"
proof -
  define n where "n = real (length x)"
  define Sx where "Sx = sum_list x"
  define Sxx where "Sxx = sum_list (map (\<lambda>a. a * a) x)"
  define D where "D = n * Sxx - Sx * Sx"
  have Dpos: "0 < D" using normal_det_pos [OF uv] by (simp add: D_def n_def Sx_def Sxx_def)
  have ne: "x \<noteq> []" using uv(1) by auto
  then have n0: "n \<noteq> 0" by (simp add: n_def)
  have m: "(n * (al * Sxx + be * Sx) - Sx * (al * Sx + n * be)) / D = al"
  proof -
    have "n * (al * Sxx + be * Sx) - Sx * (al * Sx + n * be) = al * D"
      by (simp add: D_def algebra_simps)
    with Dpos show ?thesis by simp
  qed
  have c: "(al * Sx + n * be - al * Sx) / n = be" using n0 by simp
  have "polyfit1 x (map (\<lambda>u. al * u + be) x) =
          (if D = 0 then (if Sxx = 0 then Inl NonFinite
                          else Inr ((al * Sx + n * be) / (2 * Sx), (al * Sx + n * be) / (2 * n)))
           else Inr ((n * (al * Sxx + be * Sx) - Sx * (al * Sx + n * be)) / D,
                     (al * Sx + n * be
                       - (n * (al * Sxx + be * Sx) - Sx * (al * Sx + n * be)) / D * Sx) / n))"
    using ne unfolding polyfit1_def Let_def sum_zip_line sum_line D_def n_def Sx_def Sxx_def
    by simp
  also have "\<dots> = Inr (al, be)"
    using Dpos unfolding m using c by simp
  finally show ?thesis .
qed

lemma log10_power_law:
  assumes "0 < C" "0 < (n::nat)"
  shows "log 10 (C * real n powr e) = e * log 10 (real n) + log 10 C"
  using assms by (simp add: log_mult log_powr)

section \<open>The fit on logarithms\<close>

lemma np_log10_pos:
  "(\<And>v. v \<in> set a \<Longrightarrow> 0 < v) \<Longrightarrow> np_log10 a = Inr (map (log 10) a)"
  by (simp add: np_log10_def list_all_iff)

lemma log10_real_inj:
  assumes "0 < (a::nat)" "0 < b" "a \<noteq> b"
  shows "log 10 (real a) \<noteq> log 10 (real b)"
proof
  assume "log 10 (real a) = log 10 (real b)"
  then have "\<not> log 10 (real a) < log 10 (real b)" "\<not> log 10 (real b) < log 10 (real a)"
    by simp_all
  with assms(1,2) have "\<not> real a < real b" "\<not> real b < real a" by simp_all
  with assms(3) show False by simp
qed

lemma distinct_logs:
  assumes pos: "\<forall>n\<in>set xdata. 0 < (n::nat)" and uv: "u \<in> set xdata" "v \<in> set xdata" "u \<noteq> v"
  shows "log 10 (real u) \<in> set (map (log 10) (map real xdata))"
    "log 10 (real v) \<in> set (map (log 10) (map real xdata))"
    "log 10 (real u) \<noteq> log 10 (real v)"
  using assms log10_real_inj [of u v] by auto

lemma log10_real_nonzero:
  assumes "0 < (n::nat)" and "n \<noteq> 1"
  shows "log 10 (real n) \<noteq> 0"
  using log10_real_inj [of n 1] assms by simp

lemma convergence_fit_result:
  assumes "convergence_fit xdata ydata = Inr (m, c, conv)"
  shows "polyfit1 (map (log 10) (map real xdata)) (map (log 10) ydata) = Inr (m, c)"
    and "conv = \<bar>m\<bar> * 2"
  using assms
  by (auto simp: convergence_fit_def np_log10_def split: if_splits sum.splits)

lemma convergence_fit_defined:
  assumes len: "length xdata = length ydata"
    and xpos: "\<forall>n\<in>set xdata. 0 < n" and ypos: "\<forall>r\<in>set ydata. 0 < r"
    and u: "u \<in> set xdata" "u \<noteq> 1"
  shows "\<exists>m c. polyfit1 (map (log 10) (map real xdata)) (map (log 10) ydata) = Inr (m, c)
               \<and> convergence_fit xdata ydata = Inr (m, c, \<bar>m\<bar> * 2)"
proof -
  have lx: "np_log10 (map real xdata) = Inr (map (log 10) (map real xdata))"
    using xpos by (intro np_log10_pos) auto
  have ly: "np_log10 ydata = Inr (map (log 10) ydata)"
    using ypos by (intro np_log10_pos) auto
  have l: "length (map (log 10) (map real xdata)) = length (map (log 10) ydata)"
    using len by simp
  have inl: "log 10 (real u) \<in> set (map (log 10) (map real xdata))" using u(1) by auto
  have nz: "log 10 (real u) \<noteq> 0" using xpos u by (intro log10_real_nonzero) auto
  from polyfit1_defined [OF l inl nz] obtain m c
    where f: "polyfit1 (map (log 10) (map real xdata)) (map (log 10) ydata) = Inr (m, c)"
    by blast
  then show ?thesis by (simp add: convergence_fit_def lx ly)
qed

lemma fit_warnings_distinct:
  assumes "\<forall>n\<in>set xdata. 0 < n" and "u \<in> set xdata" and "v \<in> set xdata" and "u \<noteq> v"
  shows "fit_warnings xdata = []"
  using normal_det_pos [OF distinct_logs [OF assms]]
  by (simp add: fit_warnings_def rank_deficient_def)

lemma power_law_fit:
  assumes C: "0 < C" and xpos: "\<forall>n\<in>set xdata. 0 < n"
    and uv: "u \<in> set xdata" "v \<in> set xdata" "u \<noteq> v"
  shows "convergence_fit xdata (map (\<lambda>n. C * real n powr e) xdata) = Inr (e, log 10 C, \<bar>e\<bar> * 2)"
proof -
  let ?lx = "map (log 10) (map real xdata)"
  have lx: "np_log10 (map real xdata) = Inr ?lx"
    using xpos by (intro np_log10_pos) auto
  have ly0: "np_log10 (map (\<lambda>n. C * real n powr e) xdata) =
               Inr (map (log 10) (map (\<lambda>n. C * real n powr e) xdata))"
    using xpos C by (intro np_log10_pos) auto
  have "map (log 10) (map (\<lambda>n. C * real n powr e) xdata) = map (\<lambda>u. e * u + log 10 C) ?lx"
    using xpos C by (simp add: log10_power_law)
  with ly0 have ly: "np_log10 (map (\<lambda>n. C * real n powr e) xdata) =
       Inr (map (\<lambda>u. e * u + log 10 C) ?lx)" by simp
  have "polyfit1 ?lx (map (\<lambda>u. e * u + log 10 C) ?lx) = Inr (e, log 10 C)"
    by (rule polyfit1_exact_line [OF distinct_logs [OF xpos uv]])
  then show ?thesis by (simp add: convergence_fit_def lx ly)
qed

lemma fit_example: "convergence_fit three_counts three_errors = Inr (- 1, 1, 2)"
proof -
  have "convergence_fit [100, 400, 1600] (map (\<lambda>n. 10 * real n powr (- 1)) [100, 400, 1600])
          = Inr (- 1, log 10 10, \<bar>- 1\<bar> * 2)"
    by (rule power_law_fit [of 10 _ 100 400]) simp_all
  then show ?thesis by (simp add: powr_minus three_counts_def three_errors_def)
qed

section \<open>\<open>rmse\<close> on the small work directory\<close>

lemmas float_defs = bytes_str_def py_float_def strip_def is_space_def is_digit_def slice_def

lemma time_loop_two_days:
  "time_loop 1 two_days 0 no_vars =
     Inr \<lparr>v_tt = Some (bytes_str ''0001-01-02_00:00:00''), v_DY = Some 1, v_sliceTime = Some 1\<rparr>"
  by (simp add: two_days_def no_vars_def float_defs)

lemma time_loop_first_day:
  "time_loop 1 first_day 0 no_vars =
     Inr \<lparr>v_tt = Some (bytes_str ''0001-01-01_00:00:00''), v_DY = Some 0, v_sliceTime = None\<rparr>"
  by (simp add: first_day_def no_vars_def float_defs)

lemma elapsed_two_days:
  "elapsed_time \<lparr>v_tt = Some (bytes_str ''0001-01-02_00:00:00''), v_DY = Some 1, v_sliceTime = Some 1\<rparr>
     = Inr 86400"
  by (simp add: elapsed_time_def float_defs)

lemma elapsed_first_day:
  "elapsed_time \<lparr>v_tt = Some (bytes_str ''0001-01-01_00:00:00''), v_DY = Some 0, v_sliceTime = None\<rparr>
     = Inr 0"
  by (simp add: elapsed_time_def float_defs)

lemma newLon_two_days:
  "distTrav_of 6371220 1 86400 = Inr (62831853 / 10000000 * 6371220)"
  "newLon_of (314159265 / 100000000) (62831853 / 10000000 * 6371220) 6371220 = Inr demo_centre"
  using pi_less_4 by (simp_all add: distTrav_of_def newLon_of_def demo_centre_def Let_def)

lemma tracer_cell_defined:
  assumes "rad \<noteq> 0"
  shows "\<exists>v. tracer_cell amp rad d = Inr v"
proof (cases "d < rad")
  case True
  with assms have "tracer_cell amp rad d = Inr (amp / 2 * (1 + cos (31415926 / 10000000 * d / rad)))"
    unfolding tracer_cell_def by simp
  then show ?thesis by blast
next
  case False
  then have "tracer_cell amp rad d = Inr 0" unfolding tracer_cell_def by simp
  then show ?thesis by blast
qed

lemma sequence_defined:
  "(\<And>r. r \<in> set rs \<Longrightarrow> \<exists>v. r = Inr v) \<Longrightarrow> \<exists>vs. sequence rs = Inr vs"
proof (induction rs)
  case Nil
  show ?case by simp
next
  case (Cons r rs)
  then obtain v where "r = Inr v" by auto
  moreover from Cons obtain vs where "sequence rs = Inr vs" by auto
  ultimately show ?case by simp
qed

lemma analytic_tracer_defined:
  assumes "radius cfg \<noteq> 0" "init_nTime init \<noteq> 0" "init_nVertLevels init \<noteq> 0"
    "mesh_nCells mesh = init_nCells init"
  shows "\<exists>tr. analytic_tracer cfg mesh init z = Inr tr"
proof -
  obtain vs where "sequence (map (tracer_cell (psi0 cfg) (radius cfg))
      (map (\<lambda>i. great_circle (sphere_radius mesh) (lat_center cfg) z (latCell mesh i) (lonCell mesh i))
           [0 ..< mesh_nCells mesh])) = Inr vs"
    using sequence_defined [of "map (tracer_cell (psi0 cfg) (radius cfg))
      (map (\<lambda>i. great_circle (sphere_radius mesh) (lat_center cfg) z (latCell mesh i) (lonCell mesh i))
           [0 ..< mesh_nCells mesh])"]
      tracer_cell_defined [OF assms(1)] by auto
  then show ?thesis using assms by (simp add: analytic_tracer_def Let_def)
qed

lemma great_circle_centre: "great_circle R 0 z 0 z = 0"
  by (simp add: great_circle_def)

lemma great_circle_quarter: "great_circle R 0 z 0 (z + pi / 2) = R * (pi / 2)"
  by (simp add: great_circle_def)

lemma tracer_cell_centre:
  "tracer_cell 1 (21236666667 / 10000) (great_circle 6371220 0 z 0 z) = Inr 1"
  by (simp add: tracer_cell_def great_circle_centre)

lemma tracer_cell_quarter:
  "tracer_cell 1 (21236666667 / 10000) (great_circle 6371220 0 z 0 (z + pi / 2)) = Inr 0"
  using pi_ge_two by (simp add: tracer_cell_def great_circle_quarter)

lemma upt_1: "[0 ..< 1] = [0]" by (simp add: upt_rec)
lemma upt_2: "[0 ..< 2] = [0, 1]" by (simp add: upt_rec)

lemma analytic_demo_1: "analytic_tracer demo_cfg (demo_mesh 1) (demo_init 1) demo_centre = Inr [1]"
  by (simp add: analytic_tracer_def demo_cfg_def demo_mesh_def demo_init_def tracer_cell_centre)

lemma analytic_demo_2:
  "analytic_tracer demo_cfg (demo_mesh 2) (demo_init 2) demo_centre = Inr [1, 0]"
  by (simp add: analytic_tracer_def demo_cfg_def demo_mesh_def demo_init_def upt_2
      tracer_cell_centre tracer_cell_quarter)

lemma forward_demo:
  "forward_tracer (demo_output two_days 1) 1 = Inr [0]"
  "forward_tracer (demo_output two_days 2) 1 = Inr [0, 1]"
  by (simp_all add: forward_tracer_def demo_output_def two_days_def upt_2)

lemma rmse_value_demo: "rmse_value [0] [1] = Inr 1" "rmse_value [0, 1] [1, 0] = Inr 1"
  by (simp_all add: rmse_value_def np_subtract_def np_mean_def)

lemma rmse_stages:
  assumes "mesh_files fs (mesh_name @ ''_mesh.nc'') = Some mesh"
    and "init_files fs (mesh_name @ ''_init.nc'') = Some init"
    and "output_files fs (mesh_name @ ''_output.nc'') = Some ds"
    and "time_loop (convergence_eval_time cfg) (xtime ds) 0 no_vars = Inr vs"
    and "elapsed_time vs = Inr t"
    and "distTrav_of (sphere_radius mesh) (convergence_eval_time cfg) t = Inr distTrav"
    and "newLon_of (lon_center cfg) distTrav (sphere_radius mesh) = Inr newLon"
    and "analytic_tracer cfg mesh init newLon = Inr tracer"
  shows "rmse cfg fs mesh_name =
           (case v_sliceTime vs of
              None \<Rightarrow> Inl (UnboundLocalError ''sliceTime'')
            | Some k \<Rightarrow>
                (case forward_tracer ds k of
                   Inl e \<Rightarrow> Inl e
                 | Inr tracerF \<Rightarrow>
                     (case rmse_value tracerF tracer of
                        Inl e \<Rightarrow> Inl e
                      | Inr rmseValue \<Rightarrow> Inr (rmseValue, init_nCells init))))"
  unfolding rmse_def by (simp only: assms option.case sum.case)

lemma rmse_result:
  assumes "mesh_files fs (mesh_name @ ''_mesh.nc'') = Some mesh"
    and "init_files fs (mesh_name @ ''_init.nc'') = Some init"
    and "output_files fs (mesh_name @ ''_output.nc'') = Some ds"
    and "time_loop (convergence_eval_time cfg) (xtime ds) 0 no_vars = Inr vs"
    and "elapsed_time vs = Inr t"
    and "distTrav_of (sphere_radius mesh) (convergence_eval_time cfg) t = Inr distTrav"
    and "newLon_of (lon_center cfg) distTrav (sphere_radius mesh) = Inr newLon"
    and "analytic_tracer cfg mesh init newLon = Inr tracer"
    and "v_sliceTime vs = Some k"
    and "forward_tracer ds k = Inr tracerF"
    and "rmse_value tracerF tracer = Inr rmseValue"
  shows "rmse cfg fs mesh_name = Inr (rmseValue, init_nCells init)"
  unfolding rmse_stages [OF assms(1-8)] by (simp only: assms option.case sum.case)

lemma demo_two_days_stages:
  "time_loop (convergence_eval_time demo_cfg) (xtime (demo_output two_days n)) 0 no_vars =
     Inr \<lparr>v_tt = Some (bytes_str ''0001-01-02_00:00:00''), v_DY = Some 1, v_sliceTime = Some 1\<rparr>"
  "distTrav_of (sphere_radius (demo_mesh n)) (convergence_eval_time demo_cfg) 86400 =
     Inr (62831853 / 10000000 * 6371220)"
  "newLon_of (lon_center demo_cfg) (62831853 / 10000000 * 6371220) (sphere_radius (demo_mesh n)) =
     Inr demo_centre"
  using time_loop_two_days newLon_two_days
  by (simp_all add: demo_cfg_def demo_output_def demo_mesh_def)

lemma demo_files:
  "mesh_files (demo_fs ts) (''240km'' @ ''_mesh.nc'') = Some (demo_mesh 1)"
  "init_files (demo_fs ts) (''240km'' @ ''_init.nc'') = Some (demo_init 1)"
  "output_files (demo_fs ts) (''240km'' @ ''_output.nc'') = Some (demo_output ts 1)"
  "mesh_files (demo_fs ts) (''120km'' @ ''_mesh.nc'') = Some (demo_mesh 2)"
  "init_files (demo_fs ts) (''120km'' @ ''_init.nc'') = Some (demo_init 2)"
  "output_files (demo_fs ts) (''120km'' @ ''_output.nc'') = Some (demo_output ts 2)"
  by (simp_all add: demo_fs_def)

lemma rmse_demo_240: "rmse demo_cfg (demo_fs two_days) ''240km'' = Inr (1, 1)"
proof -
  have "rmse demo_cfg (demo_fs two_days) ''240km'' = Inr (1, init_nCells (demo_init 1))"
    by (rule rmse_result [OF demo_files(1-3) demo_two_days_stages(1) elapsed_two_days
          demo_two_days_stages(2,3) analytic_demo_1 _ forward_demo(1) rmse_value_demo(1)])
       simp
  then show ?thesis by (simp add: demo_init_def)
qed

lemma rmse_demo_120: "rmse demo_cfg (demo_fs two_days) ''120km'' = Inr (1, 2)"
proof -
  have "rmse demo_cfg (demo_fs two_days) ''120km'' = Inr (1, init_nCells (demo_init 2))"
    by (rule rmse_result [OF demo_files(4-6) demo_two_days_stages(1) elapsed_two_days
          demo_two_days_stages(2,3) analytic_demo_2 _ forward_demo(2) rmse_value_demo(2)])
       simp
  then show ?thesis by (simp add: demo_init_def)
qed

lemma collect_demo:
  "collect demo_subdir demo_cfg (demo_fs two_days) [240, 120] = Inr ([1, 2], [1, 1])"
  by (simp add: demo_subdir_def rmse_demo_240 rmse_demo_120)

lemma flat_fit: "convergence_fit [1, 2] [1, 1] = Inr (0, 0, 0)"
proof -
  have "convergence_fit [1, 2] (map (\<lambda>n. 1 * real n powr 0) [1, 2])
          = Inr (0, log 10 1, \<bar>0\<bar> * 2)"
    by (rule power_law_fit [of 1 _ 1 2]) simp_all
  then show ?thesis by simp
qed

section \<open>The time loop and the tracer, in general\<close>

text \<open>When no time string has the day count of the evaluation time, the loop leaves
  \<open>sliceTime\<close> as it was, and \<open>rmse\<close> returns no value.\<close>

lemma time_loop_no_match:
  assumes "time_loop ev ts j vs = Inr vs'"
    and "\<forall>s\<in>set ts. py_float (slice 10 12 s) \<noteq> Some (ev + 1)"
  shows "v_sliceTime vs' = v_sliceTime vs"
  using assms
proof (induction ts arbitrary: j vs)
  case Nil
  then show ?case by simp
next
  case (Cons s ts)
  from Cons.prems(1) obtain d where d: "py_float (slice 10 12 s) = Some d"
    by (auto split: option.splits)
  with Cons.prems(2) have "d \<noteq> ev + 1" by auto
  then have ne: "d - 1 \<noteq> ev" by auto
  from Cons.prems(1) d ne
  have "time_loop ev ts (Suc j) (vs\<lparr>v_tt := Some s, v_DY := Some (d - 1)\<rparr>) = Inr vs'"
    by (simp add: Let_def)
  from Cons.IH [OF this] Cons.prems(2) show ?case by simp
qed

lemma rmse_no_match_fails:
  assumes "output_files fs (mesh_name @ ''_output.nc'') = Some ds"
    and "\<forall>s\<in>set (xtime ds). py_float (slice 10 12 s) \<noteq> Some (convergence_eval_time cfg + 1)"
  shows "\<exists>e. rmse cfg fs mesh_name = Inl e"
proof (cases "time_loop (convergence_eval_time cfg) (xtime ds) 0 no_vars")
  case (Inl e)
  with assms(1) show ?thesis
    by (auto simp: rmse_def split: option.splits sum.splits)
next
  case (Inr vs)
  from time_loop_no_match [OF Inr assms(2)] have "v_sliceTime vs = None"
    by (simp add: no_vars_def)
  with assms(1) Inr show ?thesis
    by (auto simp: rmse_def split: option.splits sum.splits)
qed

lemma elapsed_time_formula:
  assumes "v_tt vs = Some s" and "py_float (slice 13 15 s) = Some HR"
    and "py_float (slice 16 18 s) = Some MN" and "v_DY vs = Some DY"
  shows "elapsed_time vs = Inr (86400 * DY + 3600 * HR + MN)"
  using assms by (simp add: elapsed_time_def)

lemma tracer_cell_outside: "rad \<le> d \<Longrightarrow> tracer_cell amp rad d = Inr 0"
  by (simp add: tracer_cell_def)

lemma tracer_cell_inside:
  "d < rad \<Longrightarrow> rad \<noteq> 0 \<Longrightarrow>
     tracer_cell amp rad d = Inr (amp / 2 * (1 + cos (31415926 / 10000000 * d / rad)))"
  by (simp add: tracer_cell_def)

text \<open>A first matching step late in its day: the drift is nearly two turns.\<close>

lemma late_step:
  "time_loop 1 [bytes_str ''0001-01-02_23:00:00''] 0 no_vars =
     Inr \<lparr>v_tt = Some (bytes_str ''0001-01-02_23:00:00''), v_DY = Some 1, v_sliceTime = Some 0\<rparr>"
  "elapsed_time \<lparr>v_tt = Some (bytes_str ''0001-01-02_23:00:00''), v_DY = Some 1,
                    v_sliceTime = Some 0\<rparr> = Inr 169200"
  by (simp_all add: no_vars_def elapsed_time_def float_defs)

lemma late_drift:
  "distTrav_of 6371220 1 169200 = Inr (6371220 * (2953097091 / 240000000))"
  by (simp add: distTrav_of_def)

lemma late_newLon:
  "newLon_of 6 (6371220 * (2953097091 / 240000000)) 6371220
      = Inr (6 + 2953097091 / 240000000 - 2 * pi)"
  using pi_less_4 by (simp add: newLon_of_def Let_def)

lemma late_out: "\<not> (6 + 2953097091 / 240000000 - 2 * pi < 2 * pi)"
  using pi_less_4 by simp

section \<open>The error of two fields\<close>

lemma sq_diff_swap:
  "length a = length b \<Longrightarrow>
     map (\<lambda>x. x ^ 2) (map (\<lambda>(x, y). x - y) (zip a b)) =
     map (\<lambda>x. x ^ 2) (map (\<lambda>(x, y). x - y) (zip b (a :: real list)))"
  by (induction a b rule: list_induct2) (simp_all add: power2_commute)

lemma sq_diff_nonneg:
  "0 \<le> sum_list (map (\<lambda>x. x ^ 2) (map (\<lambda>(x, y). x - y) (zip a (b :: real list))))"
  by (rule sum_list_nonneg) auto

lemma sq_diff_zero_iff:
  "length a = length b \<Longrightarrow>
     sum_list (map (\<lambda>x. x ^ 2) (map (\<lambda>(x, y). x - y) (zip a b))) = 0 \<longleftrightarrow> a = (b :: real list)"
proof (induction a b rule: list_induct2)
  case Nil
  show ?case by simp
next
  case (Cons x xs y ys)
  have "(x - y) ^ 2 + sum_list (map (\<lambda>x. x ^ 2) (map (\<lambda>(x, y). x - y) (zip xs ys))) = 0
          \<longleftrightarrow> (x - y) ^ 2 = 0 \<and> sum_list (map (\<lambda>x. x ^ 2) (map (\<lambda>(x, y). x - y) (zip xs ys))) = 0"
    using sq_diff_nonneg [of xs ys] by (intro add_nonneg_eq_0_iff) simp_all
  with Cons show ?case by simp
qed

lemma rmse_value_equal_length:
  assumes "length a = length b" "a \<noteq> []"
  shows "rmse_value a b =
           Inr (sqrt (sum_list (map (\<lambda>x. x ^ 2) (map (\<lambda>(x, y). x - y) (zip a b)))
                      / real (length a)))"
  using assms by (auto simp: rmse_value_def np_subtract_def np_mean_def)

section \<open>The cosine just below a quarter turn\<close>

text \<open>The series of the cosine up to the power 14 is a lower bound, and it is
  positive at \<open>3.1415926 / 2\<close>: the literal of line 183 is smaller than \<open>\<pi>\<close>.\<close>

lemma lessThan_14: "{..<14::nat} = {0, 1, 2, 3, 4, 5, 6, 7, 8, 9, 10, 11, 12, 13}"
  by auto arith

lemma cos_partial_sum_14:
  "(\<Sum>m<14. cos_coeff m * x ^ m) =
     1 - x^2 / 2 + x^4 / 24 - x^6 / 720 + x^8 / 40320 - x^10 / 3628800 + x^12 / 479001600"
  unfolding lessThan_14 by (simp add: cos_coeff_def fact_numeral)

lemma cos_lower_bound:
  assumes "0 < (x::real)"
  shows "1 - x^2 / 2 + x^4 / 24 - x^6 / 720 + x^8 / 40320 - x^10 / 3628800 + x^12 / 479001600
           - x^14 / 87178291200 \<le> cos x"
proof -
  from Maclaurin_cos_expansion2 [OF assms, of 14]
  obtain t where t: "cos x = (\<Sum>m<14. cos_coeff m * x ^ m)
      + (cos (t + 1 / 2 * real (14::nat) * pi) / fact 14) * x ^ 14"
    by auto
  have "- 1 \<le> cos (t + 1 / 2 * real (14::nat) * pi)" by (rule cos_ge_minus_one)
  moreover have "0 \<le> x ^ 14 / fact 14" using assms by simp
  ultimately have "- 1 * (x ^ 14 / fact 14)
      \<le> cos (t + 1 / 2 * real (14::nat) * pi) * (x ^ 14 / fact 14)"
    by (rule mult_right_mono)
  then have "- (x ^ 14 / 87178291200) \<le> (cos (t + 1 / 2 * real (14::nat) * pi) / fact 14) * x ^ 14"
    by (simp add: fact_numeral)
  with t show ?thesis unfolding cos_partial_sum_14 by linarith
qed

lemma cos_truncated_half_pi_pos: "0 < cos (15707963 / 10000000 :: real)"
proof -
  have "(0::real) < 1 - (15707963 / 10000000)^2 / 2 + (15707963 / 10000000)^4 / 24
      - (15707963 / 10000000)^6 / 720 + (15707963 / 10000000)^8 / 40320
      - (15707963 / 10000000)^10 / 3628800 + (15707963 / 10000000)^12 / 479001600
      - (15707963 / 10000000)^14 / 87178291200"
    by (simp add: power_divide)
  also have "\<dots> \<le> cos (15707963 / 10000000)"
    by (rule cos_lower_bound) simp
  finally show ?thesis .
qed

lemma great_circle_one_radian: "great_circle 1 0 0 0 1 = 1"
proof -
  have "(1::real) \<le> pi" using pi_ge_two by simp
  then show ?thesis by (simp add: great_circle_def arccos_cos)
qed

section \<open>The fit when the numbers of cells are all equal\<close>

text \<open>Two resolutions of a hundred cells each, and one resolution alone: the fit
  goes through the mean, with half of it in the intercept.\<close>

lemma log10_100: "log 10 100 = 2"
proof -
  have "log 10 (10 ^ 2) = real 2" by (rule log_pow_cancel) simp_all
  then show ?thesis by simp
qed

lemma log10_thousandth: "log 10 (1 / 1000) = - 3"
proof -
  have "log 10 (10 ^ 3) = real 3" by (rule log_pow_cancel) simp_all
  then have "log 10 1000 = 3" by simp
  then show ?thesis by (simp add: log_divide)
qed

lemma log10_tenth: "log 10 (1 / 10) = - 1"
  by (simp add: log_divide)

lemma fit_equal_counts: "convergence_fit [100, 100] [1 / 10, 1 / 1000] = Inr (- 1 / 2, - 1, 1)"
  by (simp add: convergence_fit_def np_log10_def polyfit1_def Let_def
      log10_100 log10_thousandth log10_tenth)

lemma log10_2_nonzero: "log 10 2 \<noteq> 0"
  using log10_real_nonzero [of 2] by simp

lemma fit_single_resolution: "convergence_fit [2] [1] = Inr (0, 0, 0)"
  by (simp add: convergence_fit_def np_log10_def polyfit1_def Let_def log10_2_nonzero)

lemma fit_warnings_single: "fit_warnings [2] = [RankWarning]"
  by (simp add: fit_warnings_def rank_deficient_def)

lemma fit_warnings_three: "fit_warnings three_counts = []"
  by (rule fit_warnings_distinct [of _ 100 400]) (simp_all add: three_counts_def)

lemma collect_single_resolution:
  "collect demo_subdir demo_cfg (demo_fs two_days) [120] = Inr ([2], [1])"
  by (simp add: demo_subdir_def rmse_demo_120)

section \<open>Where a failure of \<open>run\<close> comes from\<close>

text \<open>The failure of line 117 is raised by no step before the threshold check.\<close>

lemma time_loop_error:
  "time_loop ev ts j vs = Inl e \<Longrightarrow> \<exists>s. e = FloatValueError s"
proof (induction ts arbitrary: j vs)
  case Nil
  then show ?case by simp
next
  case (Cons s ts)
  then show ?case by (auto simp: Let_def split: option.splits if_splits)
qed

lemma sequence_error: "sequence rs = Inl e \<Longrightarrow> Inl e \<in> set rs"
  by (induction rs) (auto split: sum.splits)

lemma analytic_tracer_error:
  "analytic_tracer cfg mesh init z = Inl e \<Longrightarrow> e = IndexError \<or> e = NonFinite"
  by (auto simp: analytic_tracer_def Let_def tracer_cell_def
      split: if_splits sum.splits dest!: sequence_error)

lemma rmse_value_error:
  "rmse_value a b = Inl e \<Longrightarrow> e = BroadcastError \<or> e = NonFinite"
  by (auto simp: rmse_value_def np_subtract_def np_mean_def split: if_splits sum.splits)

lemma elapsed_time_error:
  "elapsed_time vs = Inl e \<Longrightarrow> (\<exists>s. e = UnboundLocalError s) \<or> (\<exists>s. e = FloatValueError s)"
  by (auto simp: elapsed_time_def split: option.splits)

lemma new_centre_error:
  "distTrav_of R ev t = Inl e \<Longrightarrow> e = NonFinite"
  "newLon_of lonCent distTrav R = Inl e \<Longrightarrow> e = NonFinite"
  by (auto simp: distTrav_of_def newLon_of_def Let_def split: if_splits)

lemma forward_tracer_error: "forward_tracer ds k = Inl e \<Longrightarrow> e = IndexError"
  by (auto simp: forward_tracer_def split: if_splits)

lemma rmse_error:
  assumes "rmse cfg fs mesh_name = Inl e"
  shows "e \<noteq> OrderBelowTolerance a b"
  using assms
  by (auto simp: rmse_def split: option.splits sum.splits
      dest!: time_loop_error elapsed_time_error new_centre_error analytic_tracer_error
        forward_tracer_error rmse_value_error)

lemma collect_error:
  "collect resolution_to_subdir cfg fs rs = Inl e \<Longrightarrow> e \<noteq> OrderBelowTolerance a b"
proof (induction rs arbitrary: e)
  case Nil
  then show ?case by simp
next
  case (Cons r rs)
  then show ?case
    by (auto split: sum.splits prod.splits dest: rmse_error)
qed

lemma convergence_fit_error:
  "convergence_fit xdata ydata = Inl e \<Longrightarrow> e \<noteq> OrderBelowTolerance a b"
  by (auto simp: convergence_fit_def np_log10_def polyfit1_def Let_def
      split: sum.splits if_splits)

lemma run_evaluate_order_failure:
  assumes "snd (run_evaluate icos cfg xdata ydata w) = Inl (OrderBelowTolerance conv ct)"
  shows "\<exists>pl. images (fst (run_evaluate icos cfg xdata ydata w)) ''convergence.png'' = Some pl
              \<and> annotated_order pl = conv \<and> conv < ct"
proof (cases "convergence_fit xdata ydata")
  case (Inl e)
  with assms convergence_fit_error [OF Inl, of conv ct] show ?thesis
    by (simp add: run_evaluate_def)
next
  case (Inr r)
  obtain p0 p1 c where r: "r = (p0, p1, c)" by (cases r) auto
  obtain t1 t2 where t: "thresholds icos cfg = (t1, t2)" by (cases "thresholds icos cfg") auto
  from assms Inr r t show ?thesis
    by (auto simp: run_evaluate_def check_order_def save_plot_def Let_def split: if_splits)
qed

section \<open>\<open>run\<close> on the small work directory\<close>

text \<open>With the resolution of 120 km alone the fit has one point: it warns, the order
  is zero, the plot is saved and the failure of line 117 is raised. With both
  resolutions the errors are equal, the order is zero again, and the outcome is the
  same without the warning.\<close>

lemma run_evaluate_single_resolution:
  "run_evaluate True demo_cfg [2] [1] demo_world
     = (save_plot [2] [1] 0 0 0 (demo_world\<lparr>warnings := [RankWarning]\<rparr>),
        Inl (OrderBelowTolerance 0 (18 / 10)))"
proof -
  have t: "thresholds True demo_cfg = (18 / 10, 22 / 10)"
    by (simp add: thresholds_def demo_cfg_def)
  show ?thesis
    by (simp add: run_evaluate_def t fit_single_resolution fit_warnings_single check_order_def
        demo_world_def)
qed

lemma run_single_resolution:
  "run demo_subdir (demo_step\<lparr>resolutions := [120]\<rparr>) (demo_fs two_days) demo_world
     = (save_plot [2] [1] 0 0 0 (demo_world\<lparr>warnings := [RankWarning]\<rparr>),
        Inl (OrderBelowTolerance 0 (18 / 10)))"
proof -
  have f: "step_config (demo_step\<lparr>resolutions := [120]\<rparr>) = demo_cfg"
    "resolutions (demo_step\<lparr>resolutions := [120]\<rparr>) = [120]"
    "icosahedral (demo_step\<lparr>resolutions := [120]\<rparr>) = True"
    by (simp_all add: demo_step_def)
  show ?thesis
    unfolding run_def f collect_single_resolution
    by (simp only: sum.case prod.case run_evaluate_single_resolution)
qed

lemma run_evaluate_two_resolutions:
  "run_evaluate True demo_cfg [1, 2] [1, 1] demo_world
     = (save_plot [1, 2] [1, 1] 0 0 0 demo_world, Inl (OrderBelowTolerance 0 (18 / 10)))"
proof -
  have w: "fit_warnings [1, 2] = []"
    by (rule fit_warnings_distinct [of _ 1 2]) simp_all
  have t: "thresholds True demo_cfg = (18 / 10, 22 / 10)"
    by (simp add: thresholds_def demo_cfg_def)
  show ?thesis
    by (simp add: run_evaluate_def t flat_fit w check_order_def demo_world_def
        del: One_nat_def)
qed

lemma run_two_resolutions:
  "run demo_subdir demo_step (demo_fs two_days) demo_world
     = (save_plot [1, 2] [1, 1] 0 0 0 demo_world, Inl (OrderBelowTolerance 0 (18 / 10)))"
proof -
  have f: "step_config demo_step = demo_cfg" "resolutions demo_step = [240, 120]"
    "icosahedral demo_step = True"
    by (simp_all add: demo_step_def)
  show ?thesis
    unfolding run_def f collect_demo
    by (simp only: sum.case prod.case run_evaluate_two_resolutions)
qed

section \<open>The properties of the analysis\<close>

subsection \<open>C1: no time step at the evaluation time\<close>

text \<open>
  C1 asks that \<open>rmse\<close>, on an output whose time coordinate has no step at the
  configured evaluation time, fail with an explicit "no matching time step" error.
  The method has no such error. The loop of lines 154 to 160 ends without assigning
  \<open>sliceTime\<close>; lines 161 to 183 then go on with the day, hour and minute of the last
  step read, and line 186 reads \<open>sliceTime\<close>, which is unbound. On the work directory
  whose only time step is the start of the run, with an evaluation time of one day,
  the outcome is that \<open>UnboundLocalError\<close>.
\<close>

theorem rmse_without_matching_step:
  "rmse demo_cfg (demo_fs first_day) ''240km'' = Inl (UnboundLocalError ''sliceTime'')"
proof -
  have tl: "time_loop (convergence_eval_time demo_cfg) (xtime (demo_output first_day 1)) 0 no_vars =
     Inr \<lparr>v_tt = Some (bytes_str ''0001-01-01_00:00:00''), v_DY = Some 0, v_sliceTime = None\<rparr>"
    using time_loop_first_day by (simp add: demo_cfg_def demo_output_def)
  have dt: "distTrav_of (sphere_radius (demo_mesh 1)) (convergence_eval_time demo_cfg) 0 = Inr 0"
    by (simp add: distTrav_of_def demo_cfg_def)
  have nl: "newLon_of (lon_center demo_cfg) 0 (sphere_radius (demo_mesh 1)) =
              Inr (314159265 / 100000000)"
    using pi_ge_two by (simp add: newLon_of_def demo_cfg_def demo_mesh_def)
  obtain tr where tr:
    "analytic_tracer demo_cfg (demo_mesh 1) (demo_init 1) (314159265 / 100000000) = Inr tr"
    using analytic_tracer_defined [of demo_cfg "demo_init 1" "demo_mesh 1"]
    by (auto simp: demo_cfg_def demo_init_def demo_mesh_def)
  show ?thesis
    unfolding rmse_stages [OF demo_files(1-3) tl elapsed_first_day dt nl tr] by simp
qed

subsection \<open>C2: the new longitude of the centre\<close>

text \<open>
  C2 asks that the new longitude be \<open>lon_center + distance / R\<close> wrapped into
  \<open>[0, 2\<pi>)\<close>, for every centre and every drift, and in particular for
  \<open>lon_center = 0\<close> and any drift that takes the sum past \<open>2\<pi>\<close>. Lines 171 and 172
  subtract \<open>2\<pi>\<close> once, and only from a sum greater than \<open>2\<pi>\<close>. With an
  evaluation time of one day, a first matching step at 23:00 of the second day, the
  radius of the Earth and \<open>lon_center = 6\<close>, the drift computed by line 167 takes
  the sum past \<open>4\<pi>\<close> and the result is not below \<open>2\<pi>\<close>. With \<open>lon_center = 0\<close>,
  \<open>R = 1\<close> and a drift of \<open>5\<pi>\<close> the result is \<open>3\<pi>\<close>.
\<close>

theorem newLon_wrap_counterexample:
  "time_loop 1 [bytes_str ''0001-01-02_23:00:00''] 0 no_vars =
     Inr \<lparr>v_tt = Some (bytes_str ''0001-01-02_23:00:00''), v_DY = Some 1, v_sliceTime = Some 0\<rparr>
   \<and> elapsed_time \<lparr>v_tt = Some (bytes_str ''0001-01-02_23:00:00''), v_DY = Some 1,
                    v_sliceTime = Some 0\<rparr> = Inr 169200
   \<and> distTrav_of 6371220 1 169200 = Inr (6371220 * (2953097091 / 240000000))
   \<and> newLon_of 6 (6371220 * (2953097091 / 240000000)) 6371220
        = Inr (6 + 2953097091 / 240000000 - 2 * pi)
   \<and> \<not> (6 + 2953097091 / 240000000 - 2 * pi < 2 * pi)
   \<and> newLon_of 0 (5 * pi) 1 = Inr (3 * pi) \<and> \<not> (3 * pi < 2 * pi)"
  using late_step late_drift late_newLon late_out by (simp add: newLon_of_def)

text \<open>
  C2 as amended: for a sphere radius that is not zero, the new longitude is
  \<open>lon_center + distance / R\<close>, less \<open>2\<pi>\<close> when that sum is greater than \<open>2\<pi>\<close>;
  it lies in \<open>[0, 2\<pi>)\<close> whenever the sum lies in \<open>[0, 2\<pi>)\<close> or strictly between
  \<open>2\<pi>\<close> and \<open>4\<pi>\<close>.
\<close>

theorem newLon_single_wrap:
  assumes "R \<noteq> 0"
  shows "\<exists>x. newLon_of lonCent distTrav R = Inr x
           \<and> x = (if lonCent + distTrav / R > 2 * pi then lonCent + distTrav / R - 2 * pi
                  else lonCent + distTrav / R)
           \<and> ((0 \<le> lonCent + distTrav / R \<and> lonCent + distTrav / R < 2 * pi)
               \<or> (2 * pi < lonCent + distTrav / R \<and> lonCent + distTrav / R < 4 * pi)
               \<longrightarrow> 0 \<le> x \<and> x < 2 * pi)"
  using assms by (auto simp: newLon_of_def Let_def)

theorem newLon_single_wrap_witness:
  "(1 :: real) \<noteq> 0 \<and> newLon_of 0 (3 * pi) 1 = Inr pi \<and> 0 \<le> pi \<and> pi < 2 * pi"
  using newLon_single_wrap [of 1 0 "3 * pi"] by auto

subsection \<open>C3: the elapsed time\<close>

text \<open>
  C3 asks that the elapsed time be the seconds that the day, hour and minute stand
  for: \<open>86400 DY + 3600 HR + 60 MN\<close>. Line 163 adds the minutes as they are. On a
  single time step at one day and thirty minutes, with an evaluation time of one
  day, the loop matches that step and the elapsed time is \<open>86430\<close>, not \<open>88200\<close>.
\<close>

theorem elapsed_time_adds_minutes_unscaled:
  "time_loop 1 [bytes_str ''0001-01-02_00:30:00''] 0 no_vars =
     Inr \<lparr>v_tt = Some (bytes_str ''0001-01-02_00:30:00''), v_DY = Some 1, v_sliceTime = Some 0\<rparr>
   \<and> elapsed_time \<lparr>v_tt = Some (bytes_str ''0001-01-02_00:30:00''), v_DY = Some 1,
                    v_sliceTime = Some 0\<rparr> = Inr 86430
   \<and> (86430 :: real) \<noteq> 86400 * 1 + 3600 * 0 + 60 * 30"
  by (simp add: no_vars_def elapsed_time_def float_defs)

subsection \<open>C4: the order is twice the absolute least-squares slope\<close>

text \<open>
  C4: for numbers of cells and errors that are positive, as many of the ones as of
  the others and at least two, the order that \<open>run\<close> computes is twice the absolute
  value of the least-squares slope of \<open>log10\<close> of the errors against \<open>log10\<close> of the
  numbers of cells, and so it is not negative. The fit returns a line as soon as one
  number of cells is not 1 (when every mesh has a single cell the abscissae are all
  zero and \<open>np.polyfit\<close> divides zero by zero). Whatever line \<open>(m, c)\<close> it returns, the
  order is \<open>2 |m|\<close>, and no line has smaller squared residuals; when two numbers of
  cells differ, no other line reaches them.
\<close>

theorem order_is_twice_abs_least_squares_slope:
  assumes len: "length xdata = length ydata" and two: "2 \<le> length xdata"
    and xpos: "\<forall>n\<in>set xdata. 0 < n" and ypos: "\<forall>r\<in>set ydata. 0 < r"
  shows "((\<exists>n\<in>set xdata. n \<noteq> 1)
            \<longrightarrow> (\<exists>m c. convergence_fit xdata ydata = Inr (m, c, \<bar>m\<bar> * 2)))
       \<and> (\<forall>m c conv. convergence_fit xdata ydata = Inr (m, c, conv) \<longrightarrow>
             conv = \<bar>m\<bar> * 2 \<and> 0 \<le> conv
             \<and> (\<forall>a b. sq_residuals (map (log 10) (map real xdata)) (map (log 10) ydata) m c
                       \<le> sq_residuals (map (log 10) (map real xdata)) (map (log 10) ydata) a b)
             \<and> ((\<exists>u\<in>set xdata. \<exists>v\<in>set xdata. u \<noteq> v) \<longrightarrow>
                  (\<forall>a b. sq_residuals (map (log 10) (map real xdata)) (map (log 10) ydata) a b
                           \<le> sq_residuals (map (log 10) (map real xdata)) (map (log 10) ydata) m c
                         \<longrightarrow> a = m \<and> b = c)))"
proof (intro conjI impI allI)
  assume "\<exists>n\<in>set xdata. n \<noteq> 1"
  then obtain u where "u \<in> set xdata" "u \<noteq> 1" by blast
  from convergence_fit_defined [OF len xpos ypos this]
  show "\<exists>m c. convergence_fit xdata ydata = Inr (m, c, \<bar>m\<bar> * 2)" by blast
next
  fix m c conv
  assume fit: "convergence_fit xdata ydata = Inr (m, c, conv)"
  let ?lx = "map (log 10) (map real xdata)" and ?ly = "map (log 10) ydata"
  have l: "length ?lx = length ?ly" using len by simp
  note f = convergence_fit_result [OF fit]
  show "conv = \<bar>m\<bar> * 2" by (rule f(2))
  show "0 \<le> conv" unfolding f(2) by simp
  show "sq_residuals ?lx ?ly m c \<le> sq_residuals ?lx ?ly a b" for a b
    by (rule polyfit1_least [OF l f(1)])
  show "a = m" "b = c"
    if uv: "\<exists>u\<in>set xdata. \<exists>v\<in>set xdata. u \<noteq> v"
      and le: "sq_residuals ?lx ?ly a b \<le> sq_residuals ?lx ?ly m c" for a b
  proof -
    from uv obtain u v where uv': "u \<in> set xdata" "v \<in> set xdata" "u \<noteq> v" by blast
    from polyfit1_unique [OF l f(1) le distinct_logs [OF xpos uv']]
    show "a = m" "b = c" by simp_all
  qed
qed

theorem order_is_twice_abs_least_squares_slope_witness:
  "length three_counts = length three_errors \<and> 2 \<le> length three_counts
   \<and> list_all (\<lambda>n. 0 < n) three_counts \<and> list_all (\<lambda>r. 0 < r) three_errors
   \<and> (\<exists>n\<in>set three_counts. n \<noteq> 1)
   \<and> convergence_fit three_counts three_errors = Inr (- 1, 1, \<bar>- 1\<bar> * 2)
   \<and> (0 :: real) \<le> 2
   \<and> sq_residuals (map (log 10) (map real three_counts)) (map (log 10) three_errors) (- 1) 1
        \<le> sq_residuals (map (log 10) (map real three_counts)) (map (log 10) three_errors) 0 0"
proof -
  have h: "length three_counts = length three_errors" "2 \<le> length three_counts"
    "\<forall>n\<in>set three_counts. 0 < n" "\<forall>r\<in>set three_errors. 0 < r"
    by (auto simp: three_counts_def three_errors_def)
  have n1: "\<exists>n\<in>set three_counts. n \<noteq> 1" by (auto simp: three_counts_def)
  have fit: "convergence_fit three_counts three_errors = Inr (- 1, 1, 2)" by (rule fit_example)
  from order_is_twice_abs_least_squares_slope [OF h] fit
  have "sq_residuals (map (log 10) (map real three_counts)) (map (log 10) three_errors) (- 1) 1
        \<le> sq_residuals (map (log 10) (map real three_counts)) (map (log 10) three_errors) 0 0"
    by blast
  with h n1 fit show ?thesis unfolding list_all_iff by simp
qed

subsection \<open>C5: the thresholds\<close>

text \<open>
  C5: for every order \<open>conv\<close> that the fit computes and every pair of thresholds
  with \<open>conv_thresh \<le> conv_max\<close>, \<open>run\<close> fails if and only if \<open>conv < conv_thresh\<close>,
  and then with the failure of line 117; it issues the warning of line 121, and
  returns normally, if and only if \<open>conv > conv_max\<close>, and otherwise adds nothing to
  the warnings of the fit. An order equal to the minimum passes, and an order equal
  to the maximum passes without the warning.
\<close>

theorem threshold_logic:
  assumes "convergence_fit xdata ydata = Inr (p0, p1, conv)"
    and "thresholds icos cfg = (conv_thresh, conv_max)"
    and "conv_thresh \<le> conv_max"
  shows "((\<exists>e. snd (run_evaluate icos cfg xdata ydata w) = Inl e) \<longleftrightarrow> conv < conv_thresh)
       \<and> (snd (run_evaluate icos cfg xdata ydata w) = Inl (OrderBelowTolerance conv conv_thresh)
            \<longleftrightarrow> conv < conv_thresh)
       \<and> (warnings (fst (run_evaluate icos cfg xdata ydata w))
              = warnings w @ fit_warnings xdata @ [OrderAboveTolerance conv conv_max]
            \<and> snd (run_evaluate icos cfg xdata ydata w) = Inr ()
            \<longleftrightarrow> conv_max < conv)
       \<and> (warnings (fst (run_evaluate icos cfg xdata ydata w)) = warnings w @ fit_warnings xdata
            \<longleftrightarrow> conv \<le> conv_max)
       \<and> (conv = conv_thresh \<longrightarrow> snd (run_evaluate icos cfg xdata ydata w) = Inr ())
       \<and> (conv = conv_max \<longrightarrow>
            snd (run_evaluate icos cfg xdata ydata w) = Inr ()
            \<and> warnings (fst (run_evaluate icos cfg xdata ydata w))
                = warnings w @ fit_warnings xdata)"
  using assms by (auto simp: run_evaluate_def check_order_def save_plot_def Let_def)

theorem threshold_logic_witness:
  "convergence_fit three_counts three_errors = Inr (- 1, 1, 2)
   \<and> thresholds False (demo_cfg\<lparr>qu_conv_thresh := 2, qu_conv_max := 2\<rparr>) = (2, 2)
   \<and> (2 :: real) \<le> 2
   \<and> snd (run_evaluate False (demo_cfg\<lparr>qu_conv_thresh := 2, qu_conv_max := 2\<rparr>)
            three_counts three_errors demo_world) = Inr ()
   \<and> warnings (fst (run_evaluate False (demo_cfg\<lparr>qu_conv_thresh := 2, qu_conv_max := 2\<rparr>)
            three_counts three_errors demo_world))
        = warnings demo_world @ fit_warnings three_counts"
proof -
  have h: "convergence_fit three_counts three_errors = Inr (- 1, 1, 2)"
    "thresholds False (demo_cfg\<lparr>qu_conv_thresh := 2, qu_conv_max := 2\<rparr>) = (2, 2)"
    "(2 :: real) \<le> 2"
    using fit_example by (simp_all add: thresholds_def)
  from h threshold_logic [OF h, of demo_world] show ?thesis by simp
qed

subsection \<open>C6: the analytic tracer\<close>

text \<open>
  C6 asks that the analytic tracer of a cell at distance \<open>d\<close> from the centre be
  zero for \<open>d \<ge> radius\<close> and \<open>(amplitude / 2) (1 + cos (\<pi> d / radius))\<close> below.
  Line 183 has the literal \<open>3.1415926\<close> where C6 has \<open>\<pi>\<close>, while line 171
  has \<open>np.pi\<close>. For an amplitude of 1, a radius of 2 and a cell one radian east of
  the centre on the equator of the unit sphere, the distance is 1 and the value
  computed is not the value that C6 states (which is one half).
\<close>

theorem tracer_cell_truncated_pi:
  "great_circle 1 0 0 0 1 = 1
   \<and> tracer_cell 1 2 (great_circle 1 0 0 0 1) = Inr (1 / 2 * (1 + cos (15707963 / 10000000)))
   \<and> 1 / 2 * (1 + cos (15707963 / 10000000)) \<noteq> 1 / 2 * (1 + cos (pi * great_circle 1 0 0 0 1 / 2))"
  using cos_truncated_half_pi_pos by (simp add: great_circle_one_radian tracer_cell_def)

subsection \<open>C7: the root-mean-square error\<close>

text \<open>
  C7: for two fields with as many cells one as the other (and at least one cell),
  the root-mean-square error of line 187 is defined, is not negative, is the same
  when the two fields are swapped, and is zero exactly when the fields are equal.
\<close>

theorem rmse_value_nonneg_symmetric_zero:
  assumes "length a = length b" and "a \<noteq> []"
  shows "\<exists>r. rmse_value a b = Inr r \<and> 0 \<le> r \<and> rmse_value b a = Inr r \<and> (r = 0 \<longleftrightarrow> a = b)"
proof -
  let ?s = "sum_list (map (\<lambda>x. x ^ 2) (map (\<lambda>(x, y). x - y) (zip a b)))"
  let ?r = "sqrt (?s / real (length a))"
  from assms have b: "b \<noteq> []" "length b = length a" by auto
  have n: "0 < real (length a)" using assms(2) by simp
  have ab: "rmse_value a b = Inr ?r" by (rule rmse_value_equal_length [OF assms])
  have ba: "rmse_value b a = Inr ?r"
    unfolding rmse_value_equal_length [OF b(2,1)] sq_diff_swap [OF b(2)] using assms(1) by simp
  have nonneg: "0 \<le> ?r" using sq_diff_nonneg [of a b] by simp
  have "?r = 0 \<longleftrightarrow> ?s = 0" using n by simp
  then have zero: "?r = 0 \<longleftrightarrow> a = b" using sq_diff_zero_iff [OF assms(1)] by simp
  from ab ba nonneg zero show ?thesis by blast
qed

theorem rmse_value_nonneg_symmetric_zero_witness:
  "length [0, 1 :: real] = length [1, 0 :: real] \<and> [0, 1 :: real] \<noteq> [] \<and>
   (\<exists>r. rmse_value [0, 1] [1, 0] = Inr r \<and> 0 \<le> r \<and> rmse_value [1, 0] [0, 1] = Inr r
        \<and> (r = 0 \<longleftrightarrow> [0, 1] = [1, 0 :: real]))"
  using rmse_value_nonneg_symmetric_zero [of "[0, 1]" "[1, 0]"] by simp

subsection \<open>C8: an exact power law is recovered\<close>

text \<open>
  C8: for an exponent \<open>p > 0\<close>, a constant \<open>C > 0\<close> and positive numbers of cells
  \<open>N\<close> of which two differ, with errors \<open>C N\<^sup>-\<^sup>p\<^sup>/\<^sup>2\<close>, the fit of \<open>run\<close> has the
  slope \<open>- p / 2\<close> and the order \<open>p\<close>. The arithmetic is exact here, so the order is
  \<open>p\<close> itself.
\<close>

theorem power_law_order_recovered:
  assumes "0 < p" and "0 < C" and "\<forall>n\<in>set xdata. 0 < n"
    and "\<exists>u\<in>set xdata. \<exists>v\<in>set xdata. u \<noteq> v"
  shows "convergence_fit xdata (map (\<lambda>n. C * real n powr (- p / 2)) xdata)
           = Inr (- p / 2, log 10 C, p)"
proof -
  from assms(4) obtain u v where uv: "u \<in> set xdata" "v \<in> set xdata" "u \<noteq> v" by blast
  from power_law_fit [OF assms(2,3) uv, of "- p / 2"] assms(1) show ?thesis by simp
qed

theorem power_law_order_recovered_witness:
  "(0 :: real) < 2 \<and> (0 :: real) < 10 \<and> list_all (\<lambda>n. 0 < n) three_counts
   \<and> (\<exists>u\<in>set three_counts. \<exists>v\<in>set three_counts. u \<noteq> v)
   \<and> convergence_fit three_counts (map (\<lambda>n. 10 * real n powr (- 2 / 2)) three_counts)
        = Inr (- 2 / 2, log 10 10, 2)"
proof -
  have h: "(0 :: real) < 2" "(0 :: real) < 10" "\<forall>n\<in>set three_counts. 0 < n"
    "\<exists>u\<in>set three_counts. \<exists>v\<in>set three_counts. u \<noteq> v"
    by (auto simp: three_counts_def)
  from h power_law_order_recovered [OF h] show ?thesis
    unfolding list_all_iff by blast
qed

subsection \<open>C9: the scenario of three resolutions\<close>

text \<open>
  C9: for the numbers of cells \<open>[100, 400, 1600]\<close> and the errors
  \<open>[0.1, 0.025, 0.00625]\<close> the fitted order is 2, and with the thresholds 1.8 and
  2.2 \<open>run\<close> saves the plot, returns normally and issues no warning.
\<close>

theorem three_resolutions_second_order:
  assumes "thresholds icos cfg = (18 / 10, 22 / 10)"
  shows "convergence_fit three_counts three_errors = Inr (- 1, 1, 2)
       \<and> run_evaluate icos cfg three_counts three_errors w
           = (save_plot three_counts three_errors (- 1) 1 2 w, Inr ())
       \<and> warnings (fst (run_evaluate icos cfg three_counts three_errors w)) = warnings w"
  using assms
  by (simp add: run_evaluate_def fit_example fit_warnings_three check_order_def save_plot_def)

theorem three_resolutions_second_order_witness:
  "thresholds True demo_cfg = (18 / 10, 22 / 10)
   \<and> convergence_fit three_counts three_errors = Inr (- 1, 1, 2)
   \<and> run_evaluate True demo_cfg three_counts three_errors demo_world
       = (save_plot three_counts three_errors (- 1) 1 2 demo_world, Inr ())
   \<and> warnings (fst (run_evaluate True demo_cfg three_counts three_errors demo_world))
       = warnings demo_world"
proof -
  have h: "thresholds True demo_cfg = (18 / 10, 22 / 10)"
    by (simp add: thresholds_def demo_cfg_def)
  from h three_resolutions_second_order [OF h] show ?thesis by blast
qed

subsection \<open>C10: the plot is saved before the failure\<close>

text \<open>
  C10: in every execution of \<open>run\<close> that ends in the failure of line 117, for an
  order below the minimum threshold, \<open>convergence.png\<close> has been saved, with that
  order in its annotation: line 106 comes before line 116, and no earlier step
  raises that failure. The execution evaluated afterwards has the resolution of
  120 km alone.
\<close>

theorem plot_saved_before_failure:
  assumes "snd (run resolution_to_subdir self fs w) = Inl (OrderBelowTolerance conv conv_thresh)"
  shows "\<exists>pl. images (fst (run resolution_to_subdir self fs w)) ''convergence.png'' = Some pl
              \<and> annotated_order pl = conv \<and> conv < conv_thresh"
proof (cases "collect resolution_to_subdir (step_config self) fs (resolutions self)")
  case (Inl e)
  with assms collect_error [OF Inl, of conv conv_thresh] show ?thesis
    by (simp add: run_def)
next
  case (Inr r)
  obtain xdata ydata where r: "r = (xdata, ydata)" by (cases r) auto
  from assms Inr r
  have "snd (run_evaluate (icosahedral self) (step_config self) xdata ydata w)
          = Inl (OrderBelowTolerance conv conv_thresh)"
    by (simp add: run_def)
  from run_evaluate_order_failure [OF this] Inr r show ?thesis by (simp add: run_def)
qed

theorem plot_saved_before_failure_witness:
  "snd (run demo_subdir (demo_step\<lparr>resolutions := [120]\<rparr>) (demo_fs two_days) demo_world)
     = Inl (OrderBelowTolerance 0 (18 / 10))
   \<and> (\<exists>pl. images (fst (run demo_subdir (demo_step\<lparr>resolutions := [120]\<rparr>)
                              (demo_fs two_days) demo_world)) ''convergence.png'' = Some pl
           \<and> annotated_order pl = 0 \<and> (0 :: real) < 18 / 10)"
proof -
  have h: "snd (run demo_subdir (demo_step\<lparr>resolutions := [120]\<rparr>) (demo_fs two_days) demo_world)
     = Inl (OrderBelowTolerance 0 (18 / 10))"
    by (simp add: run_single_resolution)
  from h plot_saved_before_failure [OF h] show ?thesis by blast
qed

end
